theory Spec2Isabelle
  imports Main "HOL-Library.Sublist"
begin

section \<open>Strings\<close>

text \<open>
  A Python \<^verbatim>\<open>str\<close> is a sequence of Unicode code points, so it is modelled as a list of
  natural numbers. \<open>cps\<close> turns an ASCII literal into its code points. Two keywords of the
  source are not ASCII and are written out as code points: \<^verbatim>\<open>'universit\xe9'\<close> ends with
  233 and the four-character keyword is 26666, 24335, 20250, 31038.
\<close>

type_synonym py_str = "nat list"

definition cps :: "string \<Rightarrow> py_str" where
  "cps s = map of_char s"

text \<open>
  \<^verbatim>\<open>str.lower()\<close> is Python's Unicode lower-casing, a table of the language and not of this
  repository. Every function that calls it takes it as the parameter \<open>lw\<close>, and the theorems
  hold for every \<open>lw\<close>. \<open>ascii_lower\<close> is what \<^verbatim>\<open>str.lower()\<close> does on ASCII text;
  it is used to evaluate the functions at ASCII inputs.
\<close>

definition ascii_lower_cp :: "nat \<Rightarrow> nat" where
  "ascii_lower_cp c = (if 65 \<le> c \<and> c \<le> 90 then c + 32 else c)"

definition ascii_lower :: "py_str \<Rightarrow> py_str" where
  "ascii_lower s = map ascii_lower_cp s"

text \<open>\<^verbatim>\<open>kw in s\<close> on strings: \<open>kw\<close> occurs in \<open>s\<close> as a contiguous substring.\<close>

fun py_in :: "py_str \<Rightarrow> py_str \<Rightarrow> bool" where
  "py_in kw [] = (kw = [])"
| "py_in kw (c # s) = (prefix kw (c # s) \<or> py_in kw s)"

text \<open>\<^verbatim>\<open>sep.join(parts)\<close>.\<close>

fun py_join :: "py_str \<Rightarrow> py_str list \<Rightarrow> py_str" where
  "py_join sep [] = []"
| "py_join sep [p] = p"
| "py_join sep (p # q # ps) = p @ sep @ py_join sep (q # ps)"

section \<open>The affiliation classifier\<close>

definition INDUSTRY_KEYWORDS :: "py_str list" where
  "INDUSTRY_KEYWORDS = map cps
     [''pharma'', ''pharmaceutical'', ''biotech'', ''biotechnology'',
      ''inc'', ''ltd'', ''llc'', ''plc'', ''corporation'', ''company'',
      ''gmbh'', ''ag'', ''sas'', ''sarl'', ''labs'', ''research'', ''healthcare'',
      ''pfizer'', ''novartis'', ''roche'', ''merck'', ''johnson & johnson'',
      ''gsk'', ''glaxosmithkline'', ''sanofi'', ''astrazeneca'', ''eli lilly'']"

definition ACADEMIC_KEYWORDS :: "py_str list" where
  "ACADEMIC_KEYWORDS = map cps
     [''university'', ''college'', ''institute'', ''academy'', ''school'',
      ''hospital'', ''clinic'', ''medical center'', ''research center'']
   @ [cps ''universit'' @ [233], cps ''universita'', cps ''universidad'',
      [26666, 24335, 20250, 31038]]"

text \<open>
  The loop \<^verbatim>\<open>for keyword in KEYWORDS: if keyword in affil_lower: return ...\<close>: the first
  keyword of the list that occurs in the text makes the function return; \<open>None\<close> is the
  loop running to its end.
\<close>

fun first_keyword_in :: "py_str list \<Rightarrow> py_str \<Rightarrow> py_str option" where
  "first_keyword_in [] affil_lower = None"
| "first_keyword_in (keyword # keywords) affil_lower =
     (if py_in keyword affil_lower then Some keyword
      else first_keyword_in keywords affil_lower)"

text \<open>
  \<^verbatim>\<open>is_industry_affiliation(affiliation)\<close>. The argument is \<^verbatim>\<open>None\<close> or a string;
  \<^verbatim>\<open>not affiliation\<close> holds for \<^verbatim>\<open>None\<close> and for the empty string.
\<close>

definition is_industry_affiliation :: "(py_str \<Rightarrow> py_str) \<Rightarrow> py_str option \<Rightarrow> bool" where
  "is_industry_affiliation lw affiliation =
     (case affiliation of
        None \<Rightarrow> False
      | Some a \<Rightarrow>
          if a = [] then False
          else
            let affil_lower = lw a in
            (case first_keyword_in ACADEMIC_KEYWORDS affil_lower of
               Some keyword \<Rightarrow> False
             | None \<Rightarrow>
                 (case first_keyword_in INDUSTRY_KEYWORDS affil_lower of
                    Some keyword \<Rightarrow> True
                  | None \<Rightarrow> False)))"

text \<open>
  The classifier as the specification words it, to be compared with the function above:
  an empty or absent text is Academic; otherwise the text is lower-cased, and it is
  Academic if some academic keyword is a substring of it, else Industry if some industry
  keyword is a substring of it, else Academic.
\<close>

datatype affiliation_class = Industry | Academic

definition classify :: "(py_str \<Rightarrow> py_str) \<Rightarrow> py_str option \<Rightarrow> affiliation_class" where
  "classify lw affiliation_text =
     (if affiliation_text = None \<or> affiliation_text = Some [] then Academic
      else
        let t = lw (the affiliation_text) in
        if (\<exists>k \<in> set ACADEMIC_KEYWORDS. sublist k t) then Academic
        else if (\<exists>k \<in> set INDUSTRY_KEYWORDS. sublist k t) then Industry
        else Academic)"

section \<open>The raw records: XML elements\<close>

text \<open>
  The source reads records through \<^verbatim>\<open>xml.etree.ElementTree\<close>. An element has a tag, a
  dictionary of attributes, a text that may be \<^verbatim>\<open>None\<close>, its child elements in document
  order, and the text that follows its end tag (\<^verbatim>\<open>tail\<close>).
\<close>

datatype elem =
  Elem (tag: py_str) (attrib: "py_str \<rightharpoonup> py_str") (etext: "py_str option")
       (children: "elem list") (tail: "py_str option")

text \<open>All elements strictly below \<open>e\<close>, in document order.\<close>

fun descendants :: "elem \<Rightarrow> elem list" where
  "descendants (Elem t a x cs y) = concat (map (\<lambda>c. c # descendants c) cs)"

text \<open>\<^verbatim>\<open>e.findall('.//t')\<close> and \<^verbatim>\<open>e.find('.//t')\<close>.\<close>

definition findall_desc :: "py_str \<Rightarrow> elem \<Rightarrow> elem list" where
  "findall_desc t e = filter (\<lambda>d. tag d = t) (descendants e)"

definition find_desc :: "py_str \<Rightarrow> elem \<Rightarrow> elem option" where
  "find_desc t e = List.find (\<lambda>d. tag d = t) (descendants e)"

text \<open>\<^verbatim>\<open>e.find('t')\<close>: the first child with that tag. \<^verbatim>\<open>e.findall('t')\<close>: all of them.\<close>

definition find_child :: "py_str \<Rightarrow> elem \<Rightarrow> elem option" where
  "find_child t e = List.find (\<lambda>c. tag c = t) (children e)"

definition findall_child :: "py_str \<Rightarrow> elem \<Rightarrow> elem list" where
  "findall_child t e = filter (\<lambda>c. tag c = t) (children e)"

text \<open>\<^verbatim>\<open>e.get(key, default)\<close>.\<close>

definition get_attr :: "elem \<Rightarrow> py_str \<Rightarrow> py_str \<Rightarrow> py_str" where
  "get_attr e key dflt = (case attrib e key of None \<Rightarrow> dflt | Some v \<Rightarrow> v)"

text \<open>A text that Python counts as true: not \<^verbatim>\<open>None\<close> and not empty.\<close>

definition truthy :: "py_str option \<Rightarrow> bool" where
  "truthy t = (case t of None \<Rightarrow> False | Some s \<Rightarrow> s \<noteq> [])"

definition text_items :: "py_str option \<Rightarrow> py_str list" where
  "text_items t = (case t of None \<Rightarrow> [] | Some s \<Rightarrow> if s = [] then [] else [s])"

text \<open>
  \<^verbatim>\<open>e.itertext()\<close>: the element's text, then for each child its own \<^verbatim>\<open>itertext()\<close>
  followed by its tail; empty and absent texts are left out.
\<close>

fun itertext :: "elem \<Rightarrow> py_str list" where
  "itertext (Elem t a x cs y) =
     text_items x @ concat (map (\<lambda>c. itertext c @ text_items (tail c)) cs)"

section \<open>The e-mail pattern\<close>

text \<open>
  \<^verbatim>\<open>re.search(r'[a-zA-Z0-9._%+-]+@[a-zA-Z0-9.-]+\.[a-zA-Z]{2,}', affiliation)\<close>.
  The pattern is a sequence of pieces, each a character class with a lowest and an
  optional highest number of repetitions. Python's matcher is greedy and backtracks: a
  piece first takes as many characters as it can and gives them back one at a time until
  the rest of the pattern matches. \<^verbatim>\<open>re.search\<close> tries the start positions from left to
  right and returns the first match.
\<close>

record piece =
  cls :: "nat \<Rightarrow> bool"
  lo :: nat
  hi :: "nat option"

fun first_some :: "'a option list \<Rightarrow> 'a option" where
  "first_some [] = None"
| "first_some (None # xs) = first_some xs"
| "first_some (Some x # xs) = Some x"

fun match_here :: "piece list \<Rightarrow> py_str \<Rightarrow> py_str option" where
  "match_here [] s = Some []"
| "match_here (p # ps) s =
     (let avail = length (takeWhile (cls p) s);
          most = (case hi p of None \<Rightarrow> avail | Some m \<Rightarrow> min m avail)
      in first_some
           (map (\<lambda>n. map_option (\<lambda>m. take n s @ m) (match_here ps (drop n s)))
                (rev [lo p ..< Suc most])))"

fun re_search :: "piece list \<Rightarrow> py_str \<Rightarrow> py_str option" where
  "re_search ps [] = match_here ps []"
| "re_search ps (c # s) =
     (case match_here ps (c # s) of
        Some m \<Rightarrow> Some m
      | None \<Rightarrow> re_search ps s)"

definition is_alpha :: "nat \<Rightarrow> bool" where
  "is_alpha c = ((97 \<le> c \<and> c \<le> 122) \<or> (65 \<le> c \<and> c \<le> 90))"

definition is_alnum :: "nat \<Rightarrow> bool" where
  "is_alnum c = (is_alpha c \<or> (48 \<le> c \<and> c \<le> 57))"

definition one_of :: "string \<Rightarrow> nat \<Rightarrow> bool" where
  "one_of s c = (c \<in> set (cps s))"

definition EMAIL_PATTERN :: "piece list" where
  "EMAIL_PATTERN =
     [\<lparr>cls = (\<lambda>c. is_alnum c \<or> one_of ''._%+-'' c), lo = 1, hi = None\<rparr>,
      \<lparr>cls = one_of ''@'', lo = 1, hi = Some 1\<rparr>,
      \<lparr>cls = (\<lambda>c. is_alnum c \<or> one_of ''.-'' c), lo = 1, hi = None\<rparr>,
      \<lparr>cls = one_of ''.'', lo = 1, hi = Some 1\<rparr>,
      \<lparr>cls = is_alpha, lo = 2, hi = None\<rparr>]"

section \<open>The author record extractor\<close>

datatype error = RequestError | XMLParseError | AttributeError

record author =
  name :: py_str
  affiliation :: "py_str option"
  email :: "py_str option"
  is_corresponding :: bool

text \<open>What an f-string writes for a value that is a string or \<^verbatim>\<open>None\<close>.\<close>

definition py_format :: "py_str option \<Rightarrow> py_str" where
  "py_format t = (case t of None \<Rightarrow> cps ''None'' | Some s \<Rightarrow> s)"

text \<open>
  \<^verbatim>\<open>affiliation_info.find('Affiliation').text if affiliation_info is not None else ""\<close>:
  with an \<^verbatim>\<open>AffiliationInfo\<close> child that has no \<^verbatim>\<open>Affiliation\<close> child, \<^verbatim>\<open>find\<close>
  returns \<^verbatim>\<open>None\<close> and reading \<^verbatim>\<open>.text\<close> raises \<^verbatim>\<open>AttributeError\<close>.
\<close>

definition read_affiliation :: "elem \<Rightarrow> error + py_str option" where
  "read_affiliation author_elem =
     (case find_child (cps ''AffiliationInfo'') author_elem of
        None \<Rightarrow> Inr (Some [])
      | Some affiliation_info \<Rightarrow>
          (case find_child (cps ''Affiliation'') affiliation_info of
             None \<Rightarrow> Inl AttributeError
           | Some a \<Rightarrow> Inr (etext a)))"

definition or_empty :: "py_str option \<Rightarrow> py_str" where
  "or_empty t = (case t of None \<Rightarrow> [] | Some s \<Rightarrow> s)"

definition parse_author :: "(py_str \<Rightarrow> py_str) \<Rightarrow> elem \<Rightarrow> error + author option" where
  "parse_author lw author_elem =
     (case find_child (cps ''LastName'') author_elem of
        None \<Rightarrow> Inr None
      | Some last_name \<Rightarrow>
     (case find_child (cps ''ForeName'') author_elem of
        None \<Rightarrow> Inr None
      | Some fore_name \<Rightarrow>
     (case read_affiliation author_elem of
        Inl e \<Rightarrow> Inl e
      | Inr affil \<Rightarrow>
          Inr (Some
            \<lparr>name = py_format (etext fore_name) @ cps '' '' @ py_format (etext last_name),
             affiliation = affil,
             email = (if truthy affil
                      then re_search EMAIL_PATTERN (or_empty affil) else None),
             is_corresponding =
               (get_attr author_elem (cps ''ValidYN'') (cps ''N'') = cps ''Y''
                \<or> py_in (cps ''corresponding'') (lw (or_empty affil)))\<rparr>))))"

section \<open>The article record extractor\<close>

record article =
  pubmed_id :: py_str
  title :: py_str
  publication_date :: py_str
  doi :: "py_str option"
  all_authors :: "author list"
  industry_authors :: "author list"
  corresponding_emails :: "py_str list"

text \<open>
  \<^verbatim>\<open>corresponding_emails\<close> is a Python set, turned into a list when the article is
  returned. The model keeps the set as a list without repetitions; \<open>set_add\<close> is
  \<^verbatim>\<open>set.add\<close>. The order in which \<^verbatim>\<open>list(a_set)\<close> enumerates is not fixed by the
  language, so the order of the model's list (first insertion) stands for any order, and
  the theorems speak about its elements and its repetitions only.
\<close>

definition set_add :: "py_str \<Rightarrow> py_str list \<Rightarrow> py_str list" where
  "set_add x s = (if x \<in> set s then s else s @ [x])"

text \<open>A text of an element that may be missing, when Python counts it as true.\<close>

definition field_text :: "elem option \<Rightarrow> py_str option" where
  "field_text e =
     (case e of
        None \<Rightarrow> None
      | Some x \<Rightarrow> (if truthy (etext x) then etext x else None))"

text \<open>The publication date, lines 231 to 246 of the source.\<close>

definition pub_date_str_of :: "elem \<Rightarrow> py_str" where
  "pub_date_str_of article =
     (case find_desc (cps ''PubDate'') article of
        None \<Rightarrow> []
      | Some pub_date \<Rightarrow>
          let year = find_child (cps ''Year'') pub_date;
              month = find_child (cps ''Month'') pub_date;
              day = find_child (cps ''Day'') pub_date;
              date_parts =
                (case field_text year of
                   None \<Rightarrow> []
                 | Some y \<Rightarrow> y #
                    (case field_text month of
                       None \<Rightarrow> []
                     | Some m \<Rightarrow> m #
                        (case field_text day of
                           None \<Rightarrow> []
                         | Some d \<Rightarrow> [d])))
          in if date_parts \<noteq> [] then py_join (cps ''-'') date_parts
             else cps ''Date not available'')"

definition title_of :: "elem \<Rightarrow> py_str" where
  "title_of article_data =
     (case find_desc (cps ''ArticleTitle'') article_data of
        None \<Rightarrow> cps ''No title available''
      | Some title_elem \<Rightarrow> py_join (cps '' '') (itertext title_elem))"

text \<open>
  The loop over the identifiers found by \<^verbatim>\<open>findall('.//ArticleIdList/ArticleId')\<close>: the
  text of the first one whose \<^verbatim>\<open>IdType\<close> is \<^verbatim>\<open>doi\<close>, else the empty string.
\<close>

definition doi_of :: "elem \<Rightarrow> py_str option" where
  "doi_of article =
     (case List.find (\<lambda>i. attrib i (cps ''IdType'') = Some (cps ''doi''))
             (concat (map (findall_child (cps ''ArticleId''))
                          (findall_desc (cps ''ArticleIdList'') article))) of
        None \<Rightarrow> Some []
      | Some article_id_elem \<Rightarrow> etext article_id_elem)"

text \<open>
  The loop over the author elements. Its state is the three collections
  \<^verbatim>\<open>authors\<close>, \<^verbatim>\<open>industry_authors\<close> and \<^verbatim>\<open>corresponding_emails\<close>; an exception of
  \<open>parse_author\<close> leaves the loop.
\<close>

type_synonym authors_state = "author list \<times> author list \<times> py_str list"

fun process_authors ::
  "(py_str \<Rightarrow> py_str) \<Rightarrow> elem list \<Rightarrow> authors_state \<Rightarrow> error + authors_state" where
  "process_authors lw [] st = Inr st"
| "process_authors lw (author_elem # rest) (authors, industry, emails) =
     (case parse_author lw author_elem of
        Inl e \<Rightarrow> Inl e
      | Inr None \<Rightarrow> process_authors lw rest (authors, industry, emails)
      | Inr (Some a) \<Rightarrow>
          process_authors lw rest
            (authors @ [a],
             (if is_industry_affiliation lw (affiliation a) then industry @ [a]
              else industry),
             (if is_corresponding a \<and> truthy (email a)
              then set_add (or_empty (email a)) emails else emails)))"

text \<open>
  The body of the \<^verbatim>\<open>try\<close> block of \<^verbatim>\<open>get_article_details\<close>, from the parsed response
  on. The debug printing of the affiliations changes no value and raises nothing, and is
  left out.
\<close>

definition extract_article ::
  "(py_str \<Rightarrow> py_str) \<Rightarrow> py_str \<Rightarrow> elem \<Rightarrow> error + article option" where
  "extract_article lw article_id root =
     (case find_desc (cps ''PubmedArticle'') root of
        None \<Rightarrow> Inr None
      | Some article \<Rightarrow>
     (case find_desc (cps ''Article'') article of
        None \<Rightarrow> Inr None
      | Some article_data \<Rightarrow>
     (case find_desc (cps ''MedlineCitation'') article of
        None \<Rightarrow> Inr None
      | Some medline \<Rightarrow>
     (case process_authors lw (findall_desc (cps ''Author'') article) ([], [], []) of
        Inl e \<Rightarrow> Inl e
      | Inr (authors, industry, emails) \<Rightarrow>
          if industry = [] then Inr None
          else Inr (Some
            \<lparr>pubmed_id = article_id,
             title = title_of article_data,
             publication_date = pub_date_str_of article,
             doi = doi_of article,
             all_authors = authors,
             industry_authors = industry,
             corresponding_emails = emails\<rparr>)))))"

text \<open>
  \<^verbatim>\<open>get_article_details(article_id)\<close>. The request and the XML parser are outside the
  model: \<open>response\<close> is what they gave for this call, the parsed root element or the
  exception they raised. \<^verbatim>\<open>except Exception\<close> turns every exception into \<^verbatim>\<open>None\<close>.
\<close>

definition get_article_details ::
  "(py_str \<Rightarrow> py_str) \<Rightarrow> py_str \<Rightarrow> error + elem \<Rightarrow> article option" where
  "get_article_details lw article_id response =
     (case response of
        Inl e \<Rightarrow> None
      | Inr root \<Rightarrow>
          (case extract_article lw article_id root of
             Inl e \<Rightarrow> None
           | Inr result \<Rightarrow> result))"

section \<open>The result aggregator\<close>

text \<open>
  The loop of \<^verbatim>\<open>main\<close> over the identifiers, with the list \<^verbatim>\<open>papers\<close> as its state. A
  batch is the list of identifiers, each with the response its request got. A returned
  article is a dictionary with seven keys, so \<^verbatim>\<open>if paper:\<close> holds exactly when the
  result is not \<^verbatim>\<open>None\<close>.
\<close>

fun main_loop ::
  "(py_str \<Rightarrow> py_str) \<Rightarrow> (py_str \<times> (error + elem)) list \<Rightarrow> article list \<Rightarrow> article list" where
  "main_loop lw [] papers = papers"
| "main_loop lw ((article_id, response) # rest) papers =
     (case get_article_details lw article_id response of
        None \<Rightarrow> main_loop lw rest papers
      | Some paper \<Rightarrow> main_loop lw rest (papers @ [paper]))"

section \<open>Notions used to state the properties\<close>

text \<open>An author record that has both name fields.\<close>

definition has_names :: "elem \<Rightarrow> bool" where
  "has_names e =
     (find_child (cps ''LastName'') e \<noteq> None \<and> find_child (cps ''ForeName'') e \<noteq> None)"

text \<open>
  The authors extracted from a list of author records: the results of \<open>parse_author\<close>
  that are authors, in the order of the records.
\<close>

definition parsed_authors :: "(py_str \<Rightarrow> py_str) \<Rightarrow> elem list \<Rightarrow> author list" where
  "parsed_authors lw es =
     concat (map (\<lambda>e. case parse_author lw e of Inr (Some a) \<Rightarrow> [a] | _ \<Rightarrow> []) es)"

text \<open>What one author does to the set of e-mails in the loop.\<close>

definition add_email :: "author \<Rightarrow> py_str list \<Rightarrow> py_str list" where
  "add_email a emails =
     (if is_corresponding a \<and> truthy (email a) then set_add (or_empty (email a)) emails
      else emails)"

section \<open>Example records\<close>

definition leaf :: "string \<Rightarrow> string \<Rightarrow> elem" where
  "leaf t x = Elem (cps t) Map.empty (Some (cps x)) [] None"

definition node :: "string \<Rightarrow> elem list \<Rightarrow> elem" where
  "node t cs = Elem (cps t) Map.empty None cs None"

text \<open>An author of a company, with no e-mail and no flag.\<close>

definition ind_author :: elem where
  "ind_author =
     node ''Author''
       [leaf ''LastName'' ''Roe'', leaf ''ForeName'' ''Ann'',
        node ''AffiliationInfo'' [leaf ''Affiliation'' ''Pfizer Inc'']]"

text \<open>An author of a university, flagged \<^verbatim>\<open>ValidYN="Y"\<close>, with an e-mail.\<close>

definition acad_author :: elem where
  "acad_author =
     Elem (cps ''Author'') [cps ''ValidYN'' \<mapsto> cps ''Y''] None
       [leaf ''LastName'' ''Doe'', leaf ''ForeName'' ''Jo'',
        node ''AffiliationInfo'' [leaf ''Affiliation'' ''University a@b.co'']]
       None"

text \<open>An author record without a last name.\<close>

definition nameless_author :: elem where
  "nameless_author = node ''Author'' [leaf ''ForeName'' ''Cy'']"

text \<open>An author record whose \<^verbatim>\<open>AffiliationInfo\<close> block has no \<^verbatim>\<open>Affiliation\<close> element.\<close>

definition bad_author :: elem where
  "bad_author =
     node ''Author''
       [leaf ''LastName'' ''Poe'', leaf ''ForeName'' ''Ed'', node ''AffiliationInfo'' []]"

text \<open>
  A \<^verbatim>\<open>PubmedArticle\<close> with a title, the given children of its \<^verbatim>\<open>PubDate\<close> block, and the
  given author records; the same without any \<^verbatim>\<open>PubDate\<close> block; and the response that
  holds one article.
\<close>

definition dated_article :: "elem list \<Rightarrow> elem list \<Rightarrow> elem" where
  "dated_article date_fields author_elems =
     node ''PubmedArticle''
       [node ''MedlineCitation''
          [node ''Article''
             [leaf ''ArticleTitle'' ''T'',
              node ''PubDate'' date_fields,
              node ''AuthorList'' author_elems]]]"

definition undated_article :: "elem list \<Rightarrow> elem" where
  "undated_article author_elems =
     node ''PubmedArticle''
       [node ''MedlineCitation''
          [node ''Article''
             [leaf ''ArticleTitle'' ''T'',
              node ''AuthorList'' author_elems]]]"

definition response_of :: "elem \<Rightarrow> elem" where
  "response_of article = node ''PubmedArticleSet'' [article]"

definition ind_record :: author where
  "ind_record =
     \<lparr>name = cps ''Ann Roe'', affiliation = Some (cps ''Pfizer Inc''), email = None,
      is_corresponding = False\<rparr>"

definition acad_record :: author where
  "acad_record =
     \<lparr>name = cps ''Jo Doe'', affiliation = Some (cps ''University a@b.co''),
      email = Some (cps ''a@b.co''), is_corresponding = True\<rparr>"

text \<open>The article the examples give: their title is \<open>T\<close> and they have no DOI.\<close>

definition example_paper :: "py_str \<Rightarrow> py_str \<Rightarrow> author list \<Rightarrow> author list \<Rightarrow> py_str list \<Rightarrow> article" where
  "example_paper i date authors industry emails =
     \<lparr>pubmed_id = i, title = cps ''T'', publication_date = date, doi = Some [],
      all_authors = authors, industry_authors = industry, corresponding_emails = emails\<rparr>"

text \<open>An author whose affiliation text holds the word in upper case, with no flag.\<close>

definition corr_author :: elem where
  "corr_author =
     node ''Author''
       [leaf ''LastName'' ''Lee'', leaf ''ForeName'' ''Al'',
        node ''AffiliationInfo'' [leaf ''Affiliation'' ''CORRESPONDING'']]"

definition corr_record :: author where
  "corr_record =
     \<lparr>name = cps ''Al Lee'', affiliation = Some (cps ''CORRESPONDING''), email = None,
      is_corresponding = True\<rparr>"


section \<open>Theorems\<close>

subsection \<open>Substrings and keywords\<close>

lemma py_in_sublist: "py_in kw s = sublist kw s"
  by (induction s) (auto simp: sublist_Cons_right)

lemma first_keyword_in_None:
  "(first_keyword_in kws t = None) = (\<not> (\<exists>k \<in> set kws. sublist k t))"
  by (induction kws) (auto simp: py_in_sublist)

subsection \<open>The author record extractor\<close>

lemma parse_author_nameless:
  "\<not> has_names e \<Longrightarrow> parse_author lw e = Inr None"
  by (auto simp: has_names_def parse_author_def split: option.splits)

lemma parse_author_named:
  "has_names e \<Longrightarrow> parse_author lw e \<noteq> Inr None"
  by (auto simp: has_names_def parse_author_def split: option.splits sum.splits)

lemma parse_author_raises_iff:
  "isl (parse_author lw e) = (has_names e \<and> isl (read_affiliation e))"
  by (auto simp: has_names_def parse_author_def split: option.splits sum.splits)

lemma read_affiliation_raises_iff:
  "isl (read_affiliation e) =
     (\<exists>info. find_child (cps ''AffiliationInfo'') e = Some info
             \<and> find_child (cps ''Affiliation'') info = None)"
  by (auto simp: read_affiliation_def split: option.splits)

text \<open>A match of the e-mail pattern is never empty.\<close>

lemma first_some_in: "first_some xs = Some m \<Longrightarrow> Some m \<in> set xs"
  by (induction xs rule: first_some.induct) auto

lemma match_here_nonempty:
  assumes "match_here (p # ps) s = Some m" and "0 < lo p"
  shows "m \<noteq> []"
proof -
  define most where
    "most = (case hi p of None \<Rightarrow> length (takeWhile (cls p) s)
             | Some k \<Rightarrow> min k (length (takeWhile (cls p) s)))"
  have most_le: "most \<le> length s"
  proof -
    have "length (takeWhile (cls p) s) \<le> length s" by (rule length_takeWhile_le)
    then show ?thesis by (auto simp: most_def min_def split: option.splits)
  qed
  from assms(1) have
    "first_some (map (\<lambda>n. map_option (\<lambda>m. take n s @ m) (match_here ps (drop n s)))
                     (rev [lo p ..< Suc most])) = Some m"
    by (simp add: Let_def most_def)
  from first_some_in [OF this] have
    "Some m \<in> (\<lambda>n. map_option (\<lambda>m. take n s @ m) (match_here ps (drop n s)))
                ` {lo p ..< Suc most}"
    by (simp only: set_map set_rev set_upt)
  then obtain n where
    nin: "n \<in> {lo p ..< Suc most}"
    and m: "Some m = map_option (\<lambda>m. take n s @ m) (match_here ps (drop n s))"
    by blast
  from nin have n: "lo p \<le> n" "n \<le> most" by simp_all
  from m obtain m' where "m = take n s @ m'"
    by (cases "match_here ps (drop n s)") auto
  moreover from n assms(2) most_le have "0 < n" "n \<le> length s" by simp_all
  ultimately show ?thesis by auto
qed

lemma re_search_nonempty:
  "re_search (p # ps) s = Some m \<Longrightarrow> 0 < lo p \<Longrightarrow> m \<noteq> []"
proof (induction s)
  case Nil
  then show ?case using match_here_nonempty [of p ps "[]" m] by simp
next
  case (Cons c s)
  show ?case
  proof (cases "match_here (p # ps) (c # s)")
    case None
    with Cons show ?thesis by simp
  next
    case (Some m')
    with Cons.prems have "match_here (p # ps) (c # s) = Some m" by simp
    from match_here_nonempty [OF this Cons.prems(2)] show ?thesis .
  qed
qed

lemma email_match_nonempty:
  assumes "re_search EMAIL_PATTERN s = Some m"
  shows "m \<noteq> []"
  using assms unfolding EMAIL_PATTERN_def by (rule re_search_nonempty) simp

lemma parse_author_email:
  "parse_author lw e = Inr (Some a) \<Longrightarrow> email a \<noteq> Some []"
  by (auto simp: parse_author_def split: option.splits sum.splits if_splits
           dest: email_match_nonempty)

subsection \<open>The author loop\<close>

lemma parsed_authors_Nil [simp]: "parsed_authors lw [] = []"
  by (simp add: parsed_authors_def)

lemma parsed_authors_Cons:
  "parsed_authors lw (e # es) =
     (case parse_author lw e of Inr (Some a) \<Rightarrow> [a] | _ \<Rightarrow> []) @ parsed_authors lw es"
  by (simp add: parsed_authors_def)

lemma parsed_authors_append:
  "parsed_authors lw (xs @ ys) = parsed_authors lw xs @ parsed_authors lw ys"
  by (simp add: parsed_authors_def)

lemma parsed_authors_email:
  "a \<in> set (parsed_authors lw es) \<Longrightarrow> email a \<noteq> Some []"
  by (auto simp: parsed_authors_def split: sum.splits option.splits
           dest: parse_author_email parse_author_email [OF sym])

lemma process_authors_ok:
  "\<forall>e \<in> set es. \<not> isl (parse_author lw e) \<Longrightarrow>
   process_authors lw es (A, I, E) =
     Inr (A @ parsed_authors lw es,
          I @ filter (\<lambda>a. is_industry_affiliation lw (affiliation a)) (parsed_authors lw es),
          fold add_email (parsed_authors lw es) E)"
proof (induction es arbitrary: A I E)
  case Nil
  then show ?case by simp
next
  case (Cons e es)
  from Cons.prems have ne: "\<not> isl (parse_author lw e)"
    and rest: "\<forall>x \<in> set es. \<not> isl (parse_author lw x)" by simp_all
  from ne obtain r where r: "parse_author lw e = Inr r"
    by (cases "parse_author lw e") auto
  show ?case
  proof (cases r)
    case None
    with r Cons.IH [OF rest] show ?thesis
      by (simp add: parsed_authors_Cons)
  next
    case (Some a)
    with r Cons.IH [OF rest] show ?thesis
      by (simp add: parsed_authors_Cons add_email_def)
  qed
qed

lemma process_authors_raises:
  "\<exists>e \<in> set es. isl (parse_author lw e) \<Longrightarrow> isl (process_authors lw es st)"
proof (induction es arbitrary: st)
  case Nil
  then show ?case by simp
next
  case (Cons e es)
  obtain A I E where st: "st = (A, I, E)" by (cases st) auto
  show ?case
  proof (cases "parse_author lw e")
    case (Inl err)
    with st show ?thesis by simp
  next
    case (Inr r)
    with Cons.prems have "\<exists>x \<in> set es. isl (parse_author lw x)" by auto
    from Cons.IH [OF this] Inr st show ?thesis
      by (cases r) simp_all
  qed
qed

lemma process_authors_append:
  "process_authors lw (xs @ ys) st =
     (case process_authors lw xs st of Inl e \<Rightarrow> Inl e | Inr st' \<Rightarrow> process_authors lw ys st')"
proof (induction xs arbitrary: st)
  case Nil
  then show ?case by simp
next
  case (Cons x xs)
  obtain A I E where st: "st = (A, I, E)" by (cases st) auto
  show ?case
    unfolding st using Cons.IH
    by (simp split: sum.splits option.splits)
qed

lemma parsed_authors_named:
  "\<forall>e \<in> set es. \<not> isl (parse_author lw e) \<Longrightarrow>
   map (\<lambda>a. Inr (Some a)) (parsed_authors lw es) = map (parse_author lw) (filter has_names es)"
proof (induction es)
  case Nil
  then show ?case by simp
next
  case (Cons e es)
  then have IH: "map (\<lambda>a. Inr (Some a)) (parsed_authors lw es)
                  = map (parse_author lw) (filter has_names es)"
    and ne: "\<not> isl (parse_author lw e)" by simp_all
  show ?case
  proof (cases "has_names e")
    case True
    with ne parse_author_named [of e lw] obtain a where "parse_author lw e = Inr (Some a)"
      by (cases "parse_author lw e") auto
    with True IH show ?thesis by (simp add: parsed_authors_Cons)
  next
    case False
    with IH parse_author_nameless [of e lw] show ?thesis
      by (simp add: parsed_authors_Cons)
  qed
qed

lemma set_fold_add_email:
  "set (fold add_email as E) =
     set E \<union> {or_empty (email a) | a. a \<in> set as \<and> is_corresponding a \<and> truthy (email a)}"
  by (induction as arbitrary: E) (auto simp: add_email_def set_add_def)

lemma distinct_fold_add_email:
  "distinct E \<Longrightarrow> distinct (fold add_email as E)"
  by (induction as arbitrary: E) (auto simp: add_email_def set_add_def)

subsection \<open>The article record extractor and the aggregator\<close>

lemma get_article_details_Some:
  assumes "get_article_details lw i (Inr root) = Some art"
    and "find_desc (cps ''PubmedArticle'') root = Some article"
  shows "process_authors lw (findall_desc (cps ''Author'') article) ([], [], [])
           = Inr (all_authors art, industry_authors art, corresponding_emails art)"
    and "industry_authors art \<noteq> []"
    and "publication_date art = pub_date_str_of article"
    and "pubmed_id art = i"
    and "doi art = doi_of article"
  using assms
  by (auto simp: get_article_details_def extract_article_def
           split: option.splits sum.splits if_splits prod.splits)

lemma article_authors:
  assumes "get_article_details lw i (Inr root) = Some art"
    and "find_desc (cps ''PubmedArticle'') root = Some article"
  shows "\<forall>e \<in> set (findall_desc (cps ''Author'') article). \<not> isl (parse_author lw e)"
    and "all_authors art = parsed_authors lw (findall_desc (cps ''Author'') article)"
    and "industry_authors art
           = filter (\<lambda>a. is_industry_affiliation lw (affiliation a)) (all_authors art)"
    and "corresponding_emails art = fold add_email (all_authors art) []"
proof -
  let ?es = "findall_desc (cps ''Author'') article"
  have run: "process_authors lw ?es ([], [], [])
           = Inr (all_authors art, industry_authors art, corresponding_emails art)"
    by (rule get_article_details_Some(1) [OF assms])
  show ok: "\<forall>e \<in> set ?es. \<not> isl (parse_author lw e)"
  proof (rule ccontr)
    assume "\<not> ?thesis"
    then have "\<exists>e \<in> set ?es. isl (parse_author lw e)" by simp
    from process_authors_raises [OF this, of "([], [], [])"] run show False by simp
  qed
  from process_authors_ok [OF ok, of "[]" "[]" "[]"] run
  show "all_authors art = parsed_authors lw ?es"
    and "industry_authors art
           = filter (\<lambda>a. is_industry_affiliation lw (affiliation a)) (all_authors art)"
    and "corresponding_emails art = fold add_email (all_authors art) []"
    by simp_all
qed

lemma get_article_details_ok:
  assumes "find_desc (cps ''PubmedArticle'') root = Some article"
    and "find_desc (cps ''Article'') article = Some article_data"
    and "find_desc (cps ''MedlineCitation'') article = Some medline"
    and "\<forall>e \<in> set (findall_desc (cps ''Author'') article). \<not> isl (parse_author lw e)"
  shows "get_article_details lw i (Inr root) =
     (let authors = parsed_authors lw (findall_desc (cps ''Author'') article);
          industry = filter (\<lambda>a. is_industry_affiliation lw (affiliation a)) authors
      in if industry = [] then None
         else Some \<lparr>pubmed_id = i, title = title_of article_data,
                    publication_date = pub_date_str_of article, doi = doi_of article,
                    all_authors = authors, industry_authors = industry,
                    corresponding_emails = fold add_email authors []\<rparr>)"
  using assms(1-3) process_authors_ok [OF assms(4), of "[]" "[]" "[]"]
  by (simp add: get_article_details_def extract_article_def Let_def)

lemma get_article_details_raises:
  assumes "find_desc (cps ''PubmedArticle'') root = Some a"
    and "\<exists>e \<in> set (findall_desc (cps ''Author'') a). isl (parse_author lw e)"
  shows "get_article_details lw i (Inr root) = None"
proof -
  from process_authors_raises [OF assms(2), of "([], [], [])"]
  obtain err where "process_authors lw (findall_desc (cps ''Author'') a) ([], [], []) = Inl err"
    by (cases "process_authors lw (findall_desc (cps ''Author'') a) ([], [], [])") auto
  with assms(1) show ?thesis
    by (simp add: get_article_details_def extract_article_def split: option.splits)
qed

lemma main_loop_map_filter:
  "main_loop lw batch papers
     = papers @ List.map_filter (\<lambda>(i, r). get_article_details lw i r) batch"
proof (induction batch arbitrary: papers)
  case Nil
  then show ?case by (simp add: List.map_filter_simps)
next
  case (Cons x batch)
  obtain i r where x: "x = (i, r)" by (cases x) auto
  show ?case
    unfolding x using Cons.IH
    by (cases "get_article_details lw i r") (simp_all add: List.map_filter_simps)
qed

lemma field_text_None [simp]: "field_text None = None"
  by (simp add: field_text_def)

subsection \<open>Evaluating the examples\<close>

lemmas string_defs = cps_def ascii_lower_def ascii_lower_cp_def

lemmas elem_defs = leaf_def node_def find_child_def find_desc_def findall_desc_def
  findall_child_def

lemmas author_defs = ind_author_def acad_author_def bad_author_def nameless_author_def

lemma industry_example:
  "is_industry_affiliation ascii_lower (Some (cps ''Pfizer Inc''))"
  by (simp add: is_industry_affiliation_def string_defs
        ACADEMIC_KEYWORDS_def INDUSTRY_KEYWORDS_def)

lemma academic_example:
  "\<not> is_industry_affiliation ascii_lower (Some (cps ''University a@b.co''))"
  by (simp add: is_industry_affiliation_def string_defs ACADEMIC_KEYWORDS_def)

lemma priority_example:
  "\<not> is_industry_affiliation ascii_lower (Some (cps ''University Pharma Research Institute''))"
  by (simp add: is_industry_affiliation_def string_defs ACADEMIC_KEYWORDS_def)

lemma parse_ind_author: "parse_author ascii_lower ind_author = Inr (Some ind_record)"
  by (simp add: parse_author_def ind_author_def ind_record_def elem_defs read_affiliation_def
        get_attr_def py_format_def or_empty_def truthy_def string_defs EMAIL_PATTERN_def
        is_alnum_def is_alpha_def one_of_def Let_def upt_rec)

lemma parse_acad_author: "parse_author ascii_lower acad_author = Inr (Some acad_record)"
  by (simp add: parse_author_def acad_author_def acad_record_def elem_defs read_affiliation_def
        get_attr_def py_format_def or_empty_def truthy_def string_defs EMAIL_PATTERN_def
        is_alnum_def is_alpha_def one_of_def Let_def upt_rec)

lemma parse_corr_author: "parse_author ascii_lower corr_author = Inr (Some corr_record)"
  by (simp add: parse_author_def corr_author_def corr_record_def elem_defs read_affiliation_def
        get_attr_def py_format_def or_empty_def truthy_def string_defs EMAIL_PATTERN_def
        is_alnum_def is_alpha_def one_of_def Let_def upt_rec)

lemma parse_nameless_author: "parse_author lw nameless_author = Inr None"
  by (simp add: parse_author_def nameless_author_def elem_defs cps_def)

lemma parse_bad_author: "parse_author lw bad_author = Inl AttributeError"
  by (simp add: parse_author_def bad_author_def elem_defs read_affiliation_def cps_def)

lemma record_facts:
  "affiliation ind_record = Some (cps ''Pfizer Inc'')"
  "affiliation acad_record = Some (cps ''University a@b.co'')"
  "email ind_record = None" "email acad_record = Some (cps ''a@b.co'')"
  "is_corresponding acad_record" "\<not> is_corresponding ind_record"
  by (simp_all add: ind_record_def acad_record_def)

lemma find_article_in_response:
  "tag a = cps ''PubmedArticle'' \<Longrightarrow> find_desc (cps ''PubmedArticle'') (response_of a) = Some a"
  by (cases a) (simp add: response_of_def elem_defs)

lemma dated_article_blocks:
  "tag (dated_article fs es) = cps ''PubmedArticle''"
  "find_desc (cps ''Article'') (dated_article fs es) \<noteq> None"
  "find_desc (cps ''MedlineCitation'') (dated_article fs es) \<noteq> None"
  "find_desc (cps ''PubDate'') (dated_article fs es) = Some (node ''PubDate'' fs)"
  by (simp_all add: dated_article_def elem_defs cps_def)

lemma undated_article_blocks:
  "tag (undated_article es) = cps ''PubmedArticle''"
  "find_desc (cps ''Article'') (undated_article es) \<noteq> None"
  "find_desc (cps ''MedlineCitation'') (undated_article es) \<noteq> None"
  by (simp_all add: undated_article_def elem_defs cps_def)

lemma find_article_data:
  "find_desc (cps ''Article'') (undated_article es)
     = Some (node ''Article'' [leaf ''ArticleTitle'' ''T'', node ''AuthorList'' es])"
  "find_desc (cps ''Article'') (dated_article fs es)
     = Some (node ''Article'' [leaf ''ArticleTitle'' ''T'', node ''PubDate'' fs,
                               node ''AuthorList'' es])"
  by (simp_all add: undated_article_def dated_article_def elem_defs cps_def)

lemma title_of_example: "title_of (node ''Article'' (leaf ''ArticleTitle'' ''T'' # rest)) = cps ''T''"
  by (simp add: title_of_def elem_defs text_items_def cps_def)

lemma get_article_details_example:
  assumes "tag a = cps ''PubmedArticle''"
    and "find_desc (cps ''Article'') a = Some (node ''Article'' (leaf ''ArticleTitle'' ''T'' # rest))"
    and "find_desc (cps ''MedlineCitation'') a \<noteq> None"
    and "findall_desc (cps ''Author'') a = es"
    and "findall_desc (cps ''ArticleIdList'') a = []"
    and "\<forall>e \<in> set es. \<not> isl (parse_author lw e)"
  shows "get_article_details lw i (Inr (response_of a)) =
     (let authors = parsed_authors lw es;
          industry = filter (\<lambda>x. is_industry_affiliation lw (affiliation x)) authors
      in if industry = [] then None
         else Some (example_paper i (pub_date_str_of a) authors industry
                      (fold add_email authors [])))"
proof -
  from assms(3) obtain m where m: "find_desc (cps ''MedlineCitation'') a = Some m" by auto
  have d: "doi_of a = Some []" by (simp add: doi_of_def assms(5))
  from assms(6) have ok: "\<forall>e \<in> set (findall_desc (cps ''Author'') a). \<not> isl (parse_author lw e)"
    by (simp add: assms(4))
  show ?thesis
    using get_article_details_ok [OF find_article_in_response [OF assms(1)] assms(2) m ok, of i]
    by (simp add: d assms(4) title_of_example example_paper_def Let_def)
qed

lemma eval_one_industry:
  assumes "tag a = cps ''PubmedArticle''"
    and "find_desc (cps ''Article'') a = Some (node ''Article'' (leaf ''ArticleTitle'' ''T'' # rest))"
    and "find_desc (cps ''MedlineCitation'') a \<noteq> None"
    and "findall_desc (cps ''Author'') a = [ind_author]"
    and "findall_desc (cps ''ArticleIdList'') a = []"
  shows "get_article_details ascii_lower i (Inr (response_of a))
           = Some (example_paper i (pub_date_str_of a) [ind_record] [ind_record] [])"
proof -
  have ok: "\<forall>e \<in> set [ind_author]. \<not> isl (parse_author ascii_lower e)"
    by (simp add: parse_ind_author)
  show ?thesis
    using get_article_details_example [OF assms ok, of i]
    by (simp add: parsed_authors_def parse_ind_author record_facts industry_example
          add_email_def truthy_def Let_def)
qed

lemma tree_A1:
  "findall_desc (cps ''Author'') (undated_article [ind_author, acad_author]) = [ind_author, acad_author]"
  "findall_desc (cps ''ArticleIdList'') (undated_article [ind_author, acad_author]) = []"
  "find_desc (cps ''PubDate'') (undated_article [ind_author, acad_author]) = None"
  by (simp_all add: undated_article_def author_defs elem_defs cps_def)

lemma tree_A2:
  "findall_desc (cps ''Author'') (undated_article [ind_author, bad_author]) = [ind_author, bad_author]"
  by (simp add: undated_article_def author_defs elem_defs cps_def)

lemma tree_A3:
  "findall_desc (cps ''Author'') (undated_article [bad_author, ind_author]) = [bad_author, ind_author]"
  by (simp add: undated_article_def author_defs elem_defs cps_def)

lemma tree_A4:
  "findall_desc (cps ''Author'') (undated_article [ind_author]) = [ind_author]"
  "findall_desc (cps ''ArticleIdList'') (undated_article [ind_author]) = []"
  "find_desc (cps ''PubDate'') (undated_article [ind_author]) = None"
  "findall_desc (cps ''Year'') (undated_article [ind_author]) = []"
  by (simp_all add: undated_article_def author_defs elem_defs cps_def)

lemma tree_A5:
  "findall_desc (cps ''Author'') (undated_article [nameless_author, ind_author]) = [nameless_author, ind_author]"
  "findall_desc (cps ''ArticleIdList'') (undated_article [nameless_author, ind_author]) = []"
  "find_desc (cps ''PubDate'') (undated_article [nameless_author, ind_author]) = None"
  by (simp_all add: undated_article_def author_defs elem_defs cps_def)

lemma tree_A6:
  "findall_desc (cps ''Author'') (undated_article [ind_author, acad_author, acad_author]) = [ind_author, acad_author, acad_author]"
  "findall_desc (cps ''ArticleIdList'') (undated_article [ind_author, acad_author, acad_author]) = []"
  "find_desc (cps ''PubDate'') (undated_article [ind_author, acad_author, acad_author]) = None"
  by (simp_all add: undated_article_def author_defs elem_defs cps_def)

lemma tree_dated:
  "findall_desc (cps ''Author'') (dated_article [leaf ''Year'' ''2021''] [ind_author]) = [ind_author]"
  "findall_desc (cps ''ArticleIdList'') (dated_article [leaf ''Year'' ''2021''] [ind_author]) = []"
  "findall_desc (cps ''Author'') (dated_article [leaf ''Year'' ''2021'', leaf ''Month'' ''06'', leaf ''Day'' ''15''] [ind_author]) = [ind_author]"
  "findall_desc (cps ''ArticleIdList'') (dated_article [leaf ''Year'' ''2021'', leaf ''Month'' ''06'', leaf ''Day'' ''15''] [ind_author]) = []"
  "findall_desc (cps ''Author'') (dated_article [leaf ''Month'' ''06''] [ind_author]) = [ind_author]"
  "findall_desc (cps ''ArticleIdList'') (dated_article [leaf ''Month'' ''06''] [ind_author]) = []"
  by (simp_all add: dated_article_def author_defs elem_defs cps_def)

lemma date_fields:
  "field_text (find_child (cps ''Year'') (node ''PubDate'' [leaf ''Year'' ''2021''])) = Some (cps ''2021'')"
  "find_child (cps ''Month'') (node ''PubDate'' [leaf ''Year'' ''2021'']) = None"
  "field_text (find_child (cps ''Year'') (node ''PubDate'' [leaf ''Year'' ''2021'', leaf ''Month'' ''06'', leaf ''Day'' ''15''])) = Some (cps ''2021'')"
  "field_text (find_child (cps ''Month'') (node ''PubDate'' [leaf ''Year'' ''2021'', leaf ''Month'' ''06'', leaf ''Day'' ''15''])) = Some (cps ''06'')"
  "field_text (find_child (cps ''Day'') (node ''PubDate'' [leaf ''Year'' ''2021'', leaf ''Month'' ''06'', leaf ''Day'' ''15''])) = Some (cps ''15'')"
  "find_child (cps ''Year'') (node ''PubDate'' [leaf ''Month'' ''06'']) = None"
  by (simp_all add: field_text_def truthy_def elem_defs cps_def)

lemma parsed_A1: "parsed_authors ascii_lower [ind_author, acad_author] = [ind_record, acad_record]"
  by (simp add: parsed_authors_def parse_ind_author parse_acad_author)

lemma eval_A1:
  "get_article_details ascii_lower i (Inr (response_of (undated_article [ind_author, acad_author])))
     = Some (example_paper i [] [ind_record, acad_record] [ind_record] [cps ''a@b.co''])"
proof -
  have ok: "\<forall>e \<in> set [ind_author, acad_author]. \<not> isl (parse_author ascii_lower e)"
    by (simp add: parse_ind_author parse_acad_author)
  have nz: "cps ''a@b.co'' \<noteq> []" by (simp add: cps_def)
  show ?thesis
    using get_article_details_example [OF undated_article_blocks(1) find_article_data(1)
        undated_article_blocks(3) tree_A1(1) tree_A1(2) ok, of i]
    by (simp add: parsed_A1 record_facts industry_example academic_example
          pub_date_str_of_def tree_A1(3) add_email_def truthy_def or_empty_def set_add_def nz)
qed

lemma eval_A2:
  "get_article_details ascii_lower i
     (Inr (response_of (undated_article [ind_author, bad_author]))) = None"
proof -
  have "\<exists>e \<in> set (findall_desc (cps ''Author'') (undated_article [ind_author, bad_author])).
          isl (parse_author ascii_lower e)"
    by (simp add: tree_A2 parse_bad_author)
  from get_article_details_raises [OF find_article_in_response [OF undated_article_blocks(1)] this]
  show ?thesis .
qed

lemma eval_A4:
  "get_article_details ascii_lower i (Inr (response_of (undated_article [ind_author])))
     = Some (example_paper i [] [ind_record] [ind_record] [])"
  using eval_one_industry [OF undated_article_blocks(1) find_article_data(1)
          undated_article_blocks(3) tree_A4(1) tree_A4(2), of i]
  by (simp add: pub_date_str_of_def tree_A4(3))

lemma eval_A5:
  "get_article_details ascii_lower i
       (Inr (response_of (undated_article [nameless_author, ind_author])))
     = Some (example_paper i [] [ind_record] [ind_record] [])"
proof -
  have ok: "\<forall>e \<in> set [nameless_author, ind_author]. \<not> isl (parse_author ascii_lower e)"
    by (simp add: parse_ind_author parse_nameless_author)
  show ?thesis
    using get_article_details_example [OF undated_article_blocks(1) find_article_data(1)
        undated_article_blocks(3) tree_A5(1) tree_A5(2) ok, of i]
    by (simp add: parsed_authors_def parse_ind_author parse_nameless_author record_facts
          industry_example pub_date_str_of_def tree_A5(3) add_email_def truthy_def Let_def)
qed

lemma eval_A6:
  "get_article_details ascii_lower i
       (Inr (response_of (undated_article [ind_author, acad_author, acad_author])))
     = Some (example_paper i [] [ind_record, acad_record, acad_record] [ind_record]
               [cps ''a@b.co''])"
proof -
  have ok: "\<forall>e \<in> set [ind_author, acad_author, acad_author]. \<not> isl (parse_author ascii_lower e)"
    by (simp add: parse_ind_author parse_acad_author)
  have nz: "cps ''a@b.co'' \<noteq> []" by (simp add: cps_def)
  show ?thesis
    using get_article_details_example [OF undated_article_blocks(1) find_article_data(1)
        undated_article_blocks(3) tree_A6(1) tree_A6(2) ok, of i]
    by (simp add: parsed_authors_def parse_ind_author parse_acad_author record_facts
          industry_example academic_example pub_date_str_of_def tree_A6(3) add_email_def
          truthy_def or_empty_def set_add_def nz Let_def)
qed

subsection \<open>The claims\<close>

text \<open>
  What decides inclusion when no author record makes \<open>parse_author\<close> raise. For every
  response whose \<^verbatim>\<open>PubmedArticle\<close>, \<^verbatim>\<open>Article\<close> and \<^verbatim>\<open>MedlineCitation\<close> blocks are
  present and all of whose author records are parsed without an exception,
  \<open>get_article_details\<close> returns \<^verbatim>\<open>None\<close> exactly when no extracted author has an
  affiliation classified as industry; and when it returns an article, its \<open>all_authors\<close>
  are the extracted authors in source order, its \<open>industry_authors\<close> is exactly the
  ordered subsequence of \<open>all_authors\<close> classified as industry, and that list is not
  empty.
\<close>

theorem industry_authors_decide_inclusion:
  assumes "find_desc (cps ''PubmedArticle'') root = Some article"
    and "find_desc (cps ''Article'') article = Some article_data"
    and "find_desc (cps ''MedlineCitation'') article = Some medline"
    and "\<forall>e \<in> set (findall_desc (cps ''Author'') article). \<not> isl (parse_author lw e)"
  shows "(get_article_details lw i (Inr root) = None)
           = (\<not> (\<exists>a \<in> set (parsed_authors lw (findall_desc (cps ''Author'') article)).
                    is_industry_affiliation lw (affiliation a)))
         \<and> (\<forall>art. get_article_details lw i (Inr root) = Some art \<longrightarrow>
               all_authors art = parsed_authors lw (findall_desc (cps ''Author'') article)
               \<and> industry_authors art
                   = filter (\<lambda>a. is_industry_affiliation lw (affiliation a)) (all_authors art)
               \<and> industry_authors art \<noteq> [])"
  using get_article_details_ok [OF assms, of i]
  by (auto simp: Let_def filter_empty_conv split: if_splits)

theorem industry_authors_decide_inclusion_witness:
  "map_option industry_authors
     (get_article_details ascii_lower (cps ''1'')
        (Inr (response_of (undated_article [ind_author, acad_author])))) = Some [ind_record]
   \<and> map_option all_authors
     (get_article_details ascii_lower (cps ''1'')
        (Inr (response_of (undated_article [ind_author, acad_author]))))
     = Some [ind_record, acad_record]"
proof -
  let ?a = "undated_article [ind_author, acad_author]"
  let ?r = "get_article_details ascii_lower (cps ''1'') (Inr (response_of ?a))"
  obtain d where d: "find_desc (cps ''Article'') ?a = Some d"
    using undated_article_blocks(2) [of "[ind_author, acad_author]"] by auto
  obtain m where m: "find_desc (cps ''MedlineCitation'') ?a = Some m"
    using undated_article_blocks(3) [of "[ind_author, acad_author]"] by auto
  have ok: "\<forall>e \<in> set (findall_desc (cps ''Author'') ?a). \<not> isl (parse_author ascii_lower e)"
    by (simp add: tree_A1 parse_ind_author parse_acad_author)
  note incl = industry_authors_decide_inclusion
    [OF find_article_in_response [OF undated_article_blocks(1)] d m ok, of "cps ''1''"]
  have ex: "\<exists>a \<in> set (parsed_authors ascii_lower (findall_desc (cps ''Author'') ?a)).
              is_industry_affiliation ascii_lower (affiliation a)"
    by (simp add: tree_A1 parsed_A1 record_facts industry_example)
  from incl ex have "?r \<noteq> None" by blast
  then obtain art where art: "?r = Some art" by auto
  with incl have "all_authors art = [ind_record, acad_record]"
    and "industry_authors art
           = filter (\<lambda>a. is_industry_affiliation ascii_lower (affiliation a)) (all_authors art)"
    by (simp_all add: tree_A1 parsed_A1)
  then show ?thesis
    by (simp add: art record_facts industry_example academic_example)
qed

text \<open>
  C1 fails on the code. In this response all three required blocks are present and the
  first author is extracted and classified as industry, so the article should be returned
  with that author in \<open>industry_authors\<close>. The second author record has an
  \<^verbatim>\<open>AffiliationInfo\<close> block without an \<^verbatim>\<open>Affiliation\<close> child: reading its text
  raises \<^verbatim>\<open>AttributeError\<close>, and \<open>get_article_details\<close> returns \<^verbatim>\<open>None\<close> although an
  author classifies as industry.
\<close>

theorem industry_article_lost_when_sibling_raises:
  "find_desc (cps ''PubmedArticle'') (response_of (undated_article [ind_author, bad_author]))
     = Some (undated_article [ind_author, bad_author])
   \<and> find_desc (cps ''Article'') (undated_article [ind_author, bad_author]) \<noteq> None
   \<and> find_desc (cps ''MedlineCitation'') (undated_article [ind_author, bad_author]) \<noteq> None
   \<and> findall_desc (cps ''Author'') (undated_article [ind_author, bad_author])
       = [ind_author, bad_author]
   \<and> parse_author ascii_lower ind_author = Inr (Some ind_record)
   \<and> is_industry_affiliation ascii_lower (affiliation ind_record)
   \<and> get_article_details ascii_lower (cps ''1'')
       (Inr (response_of (undated_article [ind_author, bad_author]))) = None"
proof -
  let ?a = "undated_article [ind_author, bad_author]"
  have f: "find_desc (cps ''PubmedArticle'') (response_of ?a) = Some ?a"
    by (rule find_article_in_response [OF undated_article_blocks(1)])
  have "\<exists>e \<in> set (findall_desc (cps ''Author'') ?a). isl (parse_author ascii_lower e)"
    by (simp add: tree_A2 parse_bad_author)
  from get_article_details_raises [OF f this]
  show ?thesis
    by (simp add: f undated_article_blocks tree_A2 parse_ind_author record_facts industry_example)
qed

text \<open>
  C2. For every lower-casing function and every affiliation (absent or a string),
  \<open>is_industry_affiliation\<close> answers true exactly when the specification's ordered
  procedure classifies the affiliation as Industry: absent or empty is Academic, an
  academic keyword in the lower-cased text makes it Academic even when an industry keyword
  occurs too, otherwise an industry keyword makes it Industry, otherwise it is Academic.
\<close>

theorem is_industry_affiliation_refines_classify:
  "is_industry_affiliation lw aff = (classify lw aff = Industry)"
proof (cases aff)
  case None
  then show ?thesis
    by (simp add: is_industry_affiliation_def classify_def)
next
  case (Some a)
  show ?thesis
  proof (cases "a = []")
    case True
    with Some show ?thesis
      by (simp add: is_industry_affiliation_def classify_def)
  next
    case False
    have ac: "(first_keyword_in ACADEMIC_KEYWORDS (lw a) = None)
                = (\<not> (\<exists>k \<in> set ACADEMIC_KEYWORDS. sublist k (lw a)))"
      by (rule first_keyword_in_None)
    have ind: "(first_keyword_in INDUSTRY_KEYWORDS (lw a) = None)
                = (\<not> (\<exists>k \<in> set INDUSTRY_KEYWORDS. sublist k (lw a)))"
      by (rule first_keyword_in_None)
    from Some False ac ind show ?thesis
      by (auto simp: is_industry_affiliation_def classify_def Let_def
               split: option.splits)
  qed
qed

theorem is_industry_affiliation_refines_classify_witness:
  "\<not> is_industry_affiliation ascii_lower (Some (cps ''University Pharma Research Institute''))
   \<and> classify ascii_lower (Some (cps ''University Pharma Research Institute'')) \<noteq> Industry
   \<and> is_industry_affiliation ascii_lower (Some (cps ''Pfizer Inc''))
   \<and> classify ascii_lower (Some (cps ''Pfizer Inc'')) = Industry"
  using is_industry_affiliation_refines_classify
          [of ascii_lower "Some (cps ''University Pharma Research Institute'')"]
        is_industry_affiliation_refines_classify [of ascii_lower "Some (cps ''Pfizer Inc'')"]
        priority_example industry_example
  by simp

text \<open>
  C3. For every batch, the loop of \<^verbatim>\<open>main\<close> returns a list for it (the loop is total):
  the articles already collected followed by the results of \<open>get_article_details\<close> that
  are not \<^verbatim>\<open>None\<close>, in input order, neither sorted nor deduplicated. A request or
  parser exception, an exception raised during extraction and a missing required block
  all give \<^verbatim>\<open>None\<close>, and an identifier whose result is \<^verbatim>\<open>None\<close> changes nothing: the
  result is the one of the batch without it.
\<close>

theorem main_loop_skips_failures:
  "main_loop lw batch papers
     = papers @ List.map_filter (\<lambda>(i, r). get_article_details lw i r) batch
   \<and> get_article_details lw i (Inl err) = None
   \<and> (isl (extract_article lw i root) \<longrightarrow> get_article_details lw i (Inr root) = None)
   \<and> (find_desc (cps ''PubmedArticle'') root = None
        \<or> (\<exists>article. find_desc (cps ''PubmedArticle'') root = Some article
             \<and> (find_desc (cps ''Article'') article = None
                \<or> find_desc (cps ''MedlineCitation'') article = None))
       \<longrightarrow> get_article_details lw i (Inr root) = None)
   \<and> (get_article_details lw i r = None \<longrightarrow>
        main_loop lw (before @ (i, r) # after) papers = main_loop lw (before @ after) papers)"
proof -
  have a: "get_article_details lw i (Inl err) = None"
    by (simp add: get_article_details_def)
  have b: "isl (extract_article lw i root) \<longrightarrow> get_article_details lw i (Inr root) = None"
    by (auto simp: get_article_details_def split: sum.splits)
  have c: "find_desc (cps ''PubmedArticle'') root = None
        \<or> (\<exists>article. find_desc (cps ''PubmedArticle'') root = Some article
             \<and> (find_desc (cps ''Article'') article = None
                \<or> find_desc (cps ''MedlineCitation'') article = None))
       \<longrightarrow> get_article_details lw i (Inr root) = None"
    by (auto simp: get_article_details_def extract_article_def split: option.splits)
  have d: "get_article_details lw i r = None \<longrightarrow>
        main_loop lw (before @ (i, r) # after) papers = main_loop lw (before @ after) papers"
    by (simp add: main_loop_map_filter List.map_filter_def)
  from main_loop_map_filter a b c d show ?thesis by blast
qed

theorem main_loop_skips_failures_witness:
  "main_loop ascii_lower
     [(cps ''1'', Inr (response_of (undated_article [ind_author]))),
      (cps ''2'', Inr (response_of (undated_article [ind_author, bad_author]))),
      (cps ''3'', Inl RequestError),
      (cps ''1'', Inr (response_of (undated_article [ind_author])))] []
   = [example_paper (cps ''1'') [] [ind_record] [ind_record] [],
      example_paper (cps ''1'') [] [ind_record] [ind_record] []]"
  using main_loop_skips_failures [of ascii_lower
     "[(cps ''1'', Inr (response_of (undated_article [ind_author]))),
       (cps ''2'', Inr (response_of (undated_article [ind_author, bad_author]))),
       (cps ''3'', Inl RequestError),
       (cps ''1'', Inr (response_of (undated_article [ind_author])))]" "[]"]
  by (simp add: List.map_filter_simps eval_A4 eval_A2 get_article_details_def [of _ _ "Inl _"])

text \<open>
  C4, amended. For every returned article whose record has a \<^verbatim>\<open>PubDate\<close> block, the
  publication date is built from the Year, Month and Day children of the first such block,
  read in that order and stopping at the first one that is missing or has no text: year
  only, year-month, or year-month-day, joined by \<^verbatim>\<open>-\<close>; when the Year is missing or has
  no text, it is the placeholder \<^verbatim>\<open>Date not available\<close>.
\<close>

theorem publication_date_from_fields:
  assumes "get_article_details lw i (Inr root) = Some art"
    and "find_desc (cps ''PubmedArticle'') root = Some article"
    and "find_desc (cps ''PubDate'') article = Some pub_date"
  shows "publication_date art =
     (case field_text (find_child (cps ''Year'') pub_date) of
        None \<Rightarrow> cps ''Date not available''
      | Some y \<Rightarrow>
          (case field_text (find_child (cps ''Month'') pub_date) of
             None \<Rightarrow> y
           | Some m \<Rightarrow>
               (case field_text (find_child (cps ''Day'') pub_date) of
                  None \<Rightarrow> y @ cps ''-'' @ m
                | Some d \<Rightarrow> y @ cps ''-'' @ m @ cps ''-'' @ d)))"
  using get_article_details_Some(3) [OF assms(1,2)] assms(3)
  by (simp add: pub_date_str_of_def Let_def split: option.splits)

theorem publication_date_from_fields_witness:
  "map_option publication_date
     (get_article_details ascii_lower (cps ''7'')
        (Inr (response_of (dated_article [leaf ''Year'' ''2021''] [ind_author]))))
     = Some (cps ''2021'')
   \<and> map_option publication_date
     (get_article_details ascii_lower (cps ''7'')
        (Inr (response_of (dated_article
           [leaf ''Year'' ''2021'', leaf ''Month'' ''06'', leaf ''Day'' ''15''] [ind_author]))))
     = Some (cps ''2021-06-15'')
   \<and> map_option publication_date
     (get_article_details ascii_lower (cps ''7'')
        (Inr (response_of (dated_article [leaf ''Month'' ''06''] [ind_author]))))
     = Some (cps ''Date not available'')"
proof -
  let ?a1 = "dated_article [leaf ''Year'' ''2021''] [ind_author]"
  let ?a2 = "dated_article [leaf ''Year'' ''2021'', leaf ''Month'' ''06'', leaf ''Day'' ''15''] [ind_author]"
  let ?a3 = "dated_article [leaf ''Month'' ''06''] [ind_author]"
  have e1: "get_article_details ascii_lower (cps ''7'') (Inr (response_of ?a1))
              = Some (example_paper (cps ''7'') (pub_date_str_of ?a1) [ind_record] [ind_record] [])"
    by (rule eval_one_industry [OF dated_article_blocks(1) find_article_data(2)
          dated_article_blocks(3) tree_dated(1) tree_dated(2)])
  have e2: "get_article_details ascii_lower (cps ''7'') (Inr (response_of ?a2))
              = Some (example_paper (cps ''7'') (pub_date_str_of ?a2) [ind_record] [ind_record] [])"
    by (rule eval_one_industry [OF dated_article_blocks(1) find_article_data(2)
          dated_article_blocks(3) tree_dated(3) tree_dated(4)])
  have e3: "get_article_details ascii_lower (cps ''7'') (Inr (response_of ?a3))
              = Some (example_paper (cps ''7'') (pub_date_str_of ?a3) [ind_record] [ind_record] [])"
    by (rule eval_one_industry [OF dated_article_blocks(1) find_article_data(2)
          dated_article_blocks(3) tree_dated(5) tree_dated(6)])
  have j: "cps ''2021'' @ cps ''-'' @ cps ''06'' @ cps ''-'' @ cps ''15'' = cps ''2021-06-15''"
    by (simp add: cps_def)
  from publication_date_from_fields [OF e1 find_article_in_response [OF dated_article_blocks(1)]
      dated_article_blocks(4)]
    publication_date_from_fields [OF e2 find_article_in_response [OF dated_article_blocks(1)]
      dated_article_blocks(4)]
    publication_date_from_fields [OF e3 find_article_in_response [OF dated_article_blocks(1)]
      dated_article_blocks(4)]
  show ?thesis
    by (simp add: e1 e2 e3 date_fields j)
qed

text \<open>
  The claim as first stated fails for a record without a \<^verbatim>\<open>PubDate\<close> block: no Year is
  present anywhere in it, and the date of the returned article is the empty string, not
  the placeholder.
\<close>

theorem publication_date_counterexample:
  "findall_desc (cps ''Year'') (undated_article [ind_author]) = []
   \<and> map_option publication_date
       (get_article_details ascii_lower (cps ''7'')
          (Inr (response_of (undated_article [ind_author])))) = Some []
   \<and> cps ''Date not available'' \<noteq> []"
proof -
  have "get_article_details ascii_lower (cps ''7'') (Inr (response_of (undated_article [ind_author])))
          = Some (example_paper (cps ''7'') (pub_date_str_of (undated_article [ind_author]))
                    [ind_record] [ind_record] [])"
    by (rule eval_one_industry [OF undated_article_blocks(1) find_article_data(1)
          undated_article_blocks(3) tree_A4(1) tree_A4(2)])
  moreover have "cps ''Date not available'' \<noteq> []"
    by (simp add: cps_def)
  ultimately show ?thesis
    by (simp add: tree_A4 pub_date_str_of_def example_paper_def)
qed

text \<open>
  C5 fails on the code. An author record with both names and an \<^verbatim>\<open>AffiliationInfo\<close>
  block that has no \<^verbatim>\<open>Affiliation\<close> child makes \<open>parse_author\<close> raise
  \<^verbatim>\<open>AttributeError\<close>, and the whole article is lost, also its author of a company that
  is extracted without error.
\<close>

theorem parse_author_raises_on_missing_affiliation:
  "find_child (cps ''LastName'') bad_author \<noteq> None
   \<and> find_child (cps ''ForeName'') bad_author \<noteq> None
   \<and> find_child (cps ''AffiliationInfo'') bad_author = Some (node ''AffiliationInfo'' [])
   \<and> find_child (cps ''Affiliation'') (node ''AffiliationInfo'' []) = None
   \<and> parse_author ascii_lower bad_author = Inl AttributeError
   \<and> findall_desc (cps ''Author'') (undated_article [bad_author, ind_author])
       = [bad_author, ind_author]
   \<and> parse_author ascii_lower ind_author = Inr (Some ind_record)
   \<and> get_article_details ascii_lower (cps ''5'')
       (Inr (response_of (undated_article [bad_author, ind_author]))) = None"
proof -
  let ?a = "undated_article [bad_author, ind_author]"
  have f: "find_desc (cps ''PubmedArticle'') (response_of ?a) = Some ?a"
    by (rule find_article_in_response [OF undated_article_blocks(1)])
  have "\<exists>e \<in> set (findall_desc (cps ''Author'') ?a). isl (parse_author ascii_lower e)"
    by (simp add: tree_A3 parse_bad_author)
  from get_article_details_raises [OF f this]
  have r: "get_article_details ascii_lower (cps ''5'') (Inr (response_of ?a)) = None" .
  have c: "find_child (cps ''LastName'') bad_author \<noteq> None"
    "find_child (cps ''ForeName'') bad_author \<noteq> None"
    "find_child (cps ''AffiliationInfo'') bad_author = Some (node ''AffiliationInfo'' [])"
    "find_child (cps ''Affiliation'') (node ''AffiliationInfo'' []) = None"
    by (simp_all add: bad_author_def elem_defs cps_def)
  show ?thesis
    by (simp add: r c tree_A3 parse_bad_author parse_ind_author)
qed

text \<open>
  C6. For every author record that lacks the last-name or the fore-name field,
  \<open>parse_author\<close> returns \<^verbatim>\<open>None\<close> without raising; the author loop run on a list with
  that record, from any state, gives what it gives on the list without it; and the
  \<open>all_authors\<close> of every returned article are, one for one and in order, the results of
  \<open>parse_author\<close> on the author records that have both names.
\<close>

theorem nameless_author_dropped:
  assumes "find_child (cps ''LastName'') e = None \<or> find_child (cps ''ForeName'') e = None"
  shows "parse_author lw e = Inr None
         \<and> process_authors lw (before @ e # after) st = process_authors lw (before @ after) st
         \<and> (\<forall>art article. get_article_details lw i (Inr root) = Some art
               \<and> find_desc (cps ''PubmedArticle'') root = Some article \<longrightarrow>
               map (\<lambda>a. Inr (Some a)) (all_authors art)
                 = map (parse_author lw) (filter has_names (findall_desc (cps ''Author'') article)))"
proof -
  from assms have n: "\<not> has_names e" by (auto simp: has_names_def)
  have p: "parse_author lw e = Inr None" by (rule parse_author_nameless [OF n])
  have step: "\<And>s. process_authors lw (e # after) s = process_authors lw after s"
  proof -
    fix s :: authors_state
    obtain A I E where "s = (A, I, E)" by (cases s) auto
    then show "process_authors lw (e # after) s = process_authors lw after s"
      by (simp add: p)
  qed
  have frame: "process_authors lw (before @ e # after) st
                 = process_authors lw (before @ after) st"
    by (simp add: process_authors_append [of lw before] step split: sum.splits)
  have arts: "\<forall>art article. get_article_details lw i (Inr root) = Some art
               \<and> find_desc (cps ''PubmedArticle'') root = Some article \<longrightarrow>
               map (\<lambda>a. Inr (Some a)) (all_authors art)
                 = map (parse_author lw) (filter has_names (findall_desc (cps ''Author'') article))"
  proof (intro allI impI)
    fix art article
    assume h: "get_article_details lw i (Inr root) = Some art
               \<and> find_desc (cps ''PubmedArticle'') root = Some article"
    then have g: "get_article_details lw i (Inr root) = Some art"
      and f: "find_desc (cps ''PubmedArticle'') root = Some article" by simp_all
    from article_authors(1,2) [OF g f] parsed_authors_named
    show "map (\<lambda>a. Inr (Some a)) (all_authors art)
            = map (parse_author lw) (filter has_names (findall_desc (cps ''Author'') article))"
      by simp
  qed
  from p frame arts show ?thesis by blast
qed

theorem nameless_author_dropped_witness:
  "find_child (cps ''LastName'') nameless_author = None
   \<and> parse_author ascii_lower nameless_author = Inr None
   \<and> process_authors ascii_lower ([ind_author] @ nameless_author # [acad_author]) ([], [], [])
       = process_authors ascii_lower ([ind_author] @ [acad_author]) ([], [], [])
   \<and> map_option all_authors
       (get_article_details ascii_lower (cps ''6'')
          (Inr (response_of (undated_article [nameless_author, ind_author])))) = Some [ind_record]
   \<and> filter has_names [nameless_author, ind_author] = [ind_author]"
proof -
  have h: "find_child (cps ''LastName'') nameless_author = None"
    by (simp add: nameless_author_def elem_defs cps_def)
  then have h': "find_child (cps ''LastName'') nameless_author = None
                 \<or> find_child (cps ''ForeName'') nameless_author = None" by simp
  have n: "has_names ind_author"
    by (simp add: has_names_def ind_author_def elem_defs cps_def)
  have nn: "\<not> has_names nameless_author"
    using h by (simp add: has_names_def)
  from nameless_author_dropped [OF h', of ascii_lower "[ind_author]" "[acad_author]" "([], [], [])"]
  have p: "parse_author ascii_lower nameless_author = Inr None"
    and fr: "process_authors ascii_lower ([ind_author] @ nameless_author # [acad_author]) ([], [], [])
               = process_authors ascii_lower ([ind_author] @ [acad_author]) ([], [], [])"
    by blast+
  from p fr show ?thesis
    by (simp add: h eval_A5 example_paper_def n nn)
qed

text \<open>
  C7. For every returned article, the elements of \<open>corresponding_emails\<close> are exactly the
  e-mails of the authors in \<open>all_authors\<close> that are corresponding and have an e-mail, and
  the list has no repetition.
\<close>

theorem corresponding_emails_exact:
  assumes "get_article_details lw i (Inr root) = Some art"
  shows "set (corresponding_emails art)
           = {e. \<exists>a \<in> set (all_authors art). is_corresponding a \<and> email a = Some e}
         \<and> distinct (corresponding_emails art)"
proof -
  from assms obtain article where
    art: "find_desc (cps ''PubmedArticle'') root = Some article"
    by (auto simp: get_article_details_def extract_article_def split: option.splits)
  note facts = article_authors [OF assms art]
  have nonempty: "\<forall>a \<in> set (all_authors art). email a \<noteq> Some []"
    using facts(2) parsed_authors_email by auto
  have "{or_empty (email a) | a. a \<in> set (all_authors art) \<and> is_corresponding a
            \<and> truthy (email a)}
        = {e. \<exists>a \<in> set (all_authors art). is_corresponding a \<and> email a = Some e}"
    using nonempty by (auto simp: truthy_def or_empty_def split: option.splits)
  then show ?thesis
    using facts(4) by (simp add: set_fold_add_email distinct_fold_add_email)
qed

theorem corresponding_emails_exact_witness:
  "get_article_details ascii_lower (cps ''7'')
       (Inr (response_of (undated_article [ind_author, acad_author, acad_author])))
     = Some (example_paper (cps ''7'') [] [ind_record, acad_record, acad_record] [ind_record]
               [cps ''a@b.co''])
   \<and> set [cps ''a@b.co'']
       = {e. \<exists>a \<in> set [ind_record, acad_record, acad_record].
               is_corresponding a \<and> email a = Some e}
   \<and> distinct [cps ''a@b.co'']"
  using corresponding_emails_exact [OF eval_A6 [of "cps ''7''"]] eval_A6 [of "cps ''7''"]
  by (simp add: example_paper_def)

text \<open>
  C8. For every author extracted from a record, \<open>is_corresponding\<close> is true exactly when
  the record's \<^verbatim>\<open>ValidYN\<close> attribute is \<^verbatim>\<open>Y\<close> or the lower-cased affiliation text (the
  empty string when there is none) contains \<^verbatim>\<open>corresponding\<close>; the affiliation of the
  author is the one read from the record.
\<close>

theorem is_corresponding_iff:
  assumes "parse_author lw e = Inr (Some a)"
  shows "is_corresponding a =
           (attrib e (cps ''ValidYN'') = Some (cps ''Y'')
            \<or> sublist (cps ''corresponding'') (lw (or_empty (affiliation a))))
         \<and> read_affiliation e = Inr (affiliation a)"
proof -
  have ny: "cps ''N'' \<noteq> cps ''Y''" by (simp add: cps_def)
  have flag: "(get_attr e (cps ''ValidYN'') (cps ''N'') = cps ''Y'')
                = (attrib e (cps ''ValidYN'') = Some (cps ''Y''))"
    using ny by (simp add: get_attr_def split: option.splits)
  from assms flag show ?thesis
    by (auto simp: parse_author_def py_in_sublist split: option.splits sum.splits)
qed

theorem is_corresponding_iff_witness:
  "parse_author ascii_lower acad_author = Inr (Some acad_record)
   \<and> is_corresponding acad_record
   \<and> attrib acad_author (cps ''ValidYN'') = Some (cps ''Y'')
   \<and> parse_author ascii_lower corr_author = Inr (Some corr_record)
   \<and> is_corresponding corr_record
   \<and> attrib corr_author (cps ''ValidYN'') = None
   \<and> sublist (cps ''corresponding'') (ascii_lower (cps ''CORRESPONDING''))"
proof -
  have a: "attrib acad_author (cps ''ValidYN'') = Some (cps ''Y'')"
    by (simp add: acad_author_def)
  have c: "attrib corr_author (cps ''ValidYN'') = None"
    by (simp add: corr_author_def node_def)
  have r: "is_corresponding corr_record" "affiliation corr_record = Some (cps ''CORRESPONDING'')"
    by (simp_all add: corr_record_def)
  from is_corresponding_iff [OF parse_acad_author] is_corresponding_iff [OF parse_corr_author]
  show ?thesis
    by (simp add: a c r parse_acad_author parse_corr_author record_facts or_empty_def)
qed

text \<open>
  C9. For every returned article whose record has no \<^verbatim>\<open>PubDate\<close> block at all, the
  publication date is the empty string, which is not the placeholder.
\<close>

theorem missing_pubdate_gives_empty_string:
  assumes "get_article_details lw i (Inr root) = Some art"
    and "find_desc (cps ''PubmedArticle'') root = Some article"
    and "find_desc (cps ''PubDate'') article = None"
  shows "publication_date art = [] \<and> publication_date art \<noteq> cps ''Date not available''"
  using get_article_details_Some(3) [OF assms(1,2)] assms(3)
  by (simp add: pub_date_str_of_def cps_def)

theorem missing_pubdate_gives_empty_string_witness:
  "get_article_details ascii_lower (cps ''9'')
       (Inr (response_of (undated_article [ind_author, acad_author])))
     = Some (example_paper (cps ''9'') [] [ind_record, acad_record] [ind_record] [cps ''a@b.co''])
   \<and> find_desc (cps ''PubDate'') (undated_article [ind_author, acad_author]) = None
   \<and> publication_date
       (example_paper (cps ''9'') [] [ind_record, acad_record] [ind_record] [cps ''a@b.co'']) = []"
  using missing_pubdate_gives_empty_string
          [OF eval_A1 find_article_in_response [OF undated_article_blocks(1)] tree_A1(3),
           of "cps ''9''"]
        eval_A1 [of "cps ''9''"] tree_A1(3)
  by simp

text \<open>
  C10. There is a response whose article is returned and has an author in \<open>all_authors\<close>,
  not in \<open>industry_authors\<close>, who is corresponding and whose e-mail is in
  \<open>corresponding_emails\<close>.
\<close>

theorem corresponding_emails_include_non_industry_authors:
  "\<exists>root art a e.
     get_article_details ascii_lower (cps ''1'') (Inr root) = Some art
     \<and> a \<in> set (all_authors art) \<and> a \<notin> set (industry_authors art)
     \<and> is_corresponding a \<and> email a = Some e \<and> e \<in> set (corresponding_emails art)"
proof -
  have ne: "acad_record \<noteq> ind_record"
    by (simp add: acad_record_def ind_record_def)
  let ?art = "example_paper (cps ''1'') [] [ind_record, acad_record] [ind_record] [cps ''a@b.co'']"
  have "get_article_details ascii_lower (cps ''1'')
          (Inr (response_of (undated_article [ind_author, acad_author]))) = Some ?art
        \<and> acad_record \<in> set (all_authors ?art) \<and> acad_record \<notin> set (industry_authors ?art)
        \<and> is_corresponding acad_record \<and> email acad_record = Some (cps ''a@b.co'')
        \<and> cps ''a@b.co'' \<in> set (corresponding_emails ?art)"
    by (simp add: eval_A1 example_paper_def ne record_facts)
  then show ?thesis by blast
qed

end
